theory Spec2Isabelle
  imports Complex_Main "HOL-Library.Product_Lexorder" "HOL-Library.AList"
begin

section \<open>Finance Management System API: month ranges, listing and summary\<close>

text \<open>
  A shallow embedding of \<^verbatim>\<open>main.py\<close>. Handlers are functions of the store contents
  and the request; every exception the Python can raise is a value of \<open>error\<close>.
  Monetary amounts are Python floats in the source; they are modelled by exact rationals,
  so that sums are exact and \<open>round(x, 2)\<close> is rounding to the nearest hundredth with
  ties to even.
\<close>

subsection \<open>Errors\<close>

text \<open>
  \<open>HTTPException status detail\<close> is what the handlers raise themselves. \<open>ValueError\<close>
  (from \<^verbatim>\<open>datetime\<close>) and \<open>InvalidId\<close> (from \<^verbatim>\<open>bson.ObjectId\<close>) are not caught
  anywhere in \<^verbatim>\<open>main.py\<close>: they leave the handler as unhandled exceptions.
\<close>

datatype error = ValueError | InvalidId | HTTPException nat string

subsection \<open>Calendar dates (Python's \<^verbatim>\<open>datetime.date\<close>)\<close>

record date =
  year :: nat
  month :: nat
  day :: nat

definition MINYEAR :: nat where "MINYEAR = 1"
definition MAXYEAR :: nat where "MAXYEAR = 9999"

definition is_leap :: "nat \<Rightarrow> bool" where
  "is_leap y = (y mod 4 = 0 \<and> (y mod 100 \<noteq> 0 \<or> y mod 400 = 0))"

definition DAYS_IN_MONTH :: "nat list" where
  "DAYS_IN_MONTH = [0, 31, 28, 31, 30, 31, 30, 31, 31, 30, 31, 30, 31]"

definition days_in_month :: "nat \<Rightarrow> nat \<Rightarrow> nat" where
  "days_in_month y m = (if m = 2 \<and> is_leap y then 29 else DAYS_IN_MONTH ! m)"

definition days_before_year :: "nat \<Rightarrow> nat" where
  "days_before_year y = (let z = y - 1 in z * 365 + z div 4 - z div 100 + z div 400)"

text \<open>The table \<^verbatim>\<open>_DAYS_BEFORE_MONTH\<close> accumulates \<^verbatim>\<open>_DAYS_IN_MONTH[1:]\<close>.\<close>

definition days_before_month :: "nat \<Rightarrow> nat \<Rightarrow> nat" where
  "days_before_month y m =
     sum_list (take (m - 1) (tl DAYS_IN_MONTH)) + (if 2 < m \<and> is_leap y then 1 else 0)"

definition ymd2ord :: "nat \<Rightarrow> nat \<Rightarrow> nat \<Rightarrow> nat" where
  "ymd2ord y m d = days_before_year y + days_before_month y m + d"

definition toordinal :: "date \<Rightarrow> nat" where
  "toordinal d = ymd2ord (year d) (month d) (day d)"

text \<open>\<^verbatim>\<open>a - b\<close> on dates: the number of days of the resulting \<^verbatim>\<open>timedelta\<close>.\<close>

definition date_sub :: "date \<Rightarrow> date \<Rightarrow> int" where
  "date_sub a b = int (toordinal a) - int (toordinal b)"

text \<open>The constructor \<^verbatim>\<open>date(y, m, d)\<close> raises \<^verbatim>\<open>ValueError\<close> outside its range.\<close>

definition date_new :: "nat \<Rightarrow> nat \<Rightarrow> nat \<Rightarrow> error + date" where
  "date_new y m d =
     (if MINYEAR \<le> y \<and> y \<le> MAXYEAR \<and> 1 \<le> m \<and> m \<le> 12 \<and> 1 \<le> d \<and> d \<le> days_in_month y m
      then Inr \<lparr>year = y, month = m, day = d\<rparr>
      else Inl ValueError)"

text \<open>Dates compare as the triples \<open>(year, month, day)\<close>.\<close>

definition date_key :: "date \<Rightarrow> nat \<times> nat \<times> nat" where
  "date_key d = (year d, month d, day d)"

definition date_le :: "date \<Rightarrow> date \<Rightarrow> bool" where
  "date_le a b = (date_key a \<le> date_key b)"

definition date_less :: "date \<Rightarrow> date \<Rightarrow> bool" where
  "date_less a b = (date_key a < date_key b)"

subsection \<open>\<^verbatim>\<open>datetime.strptime(s, "%Y-%m-%d").date()\<close>\<close>

text \<open>
  \<^verbatim>\<open>strptime\<close> compiles the format to the regular expression
  \<^verbatim>\<open>(\d\d\d\d)-(1[0-2]|0[1-9]|[1-9])-(3[01]|[12]\d|0[1-9]|[1-9]| [1-9])\<close>,
  matches it at the start of the string, and raises \<^verbatim>\<open>ValueError\<close> when there is no
  match, when text remains after the match, or when the numbers are not a date.
\<close>

definition is_digit :: "char \<Rightarrow> bool" where
  "is_digit c = (c \<in> set ''0123456789'')"

definition digit_val :: "char \<Rightarrow> nat" where
  "digit_val c = of_char c - 48"

text \<open>The alternatives of \<^verbatim>\<open>%m\<close> that match at the head, in the order the regex tries them.\<close>

definition match_m :: "string \<Rightarrow> (nat \<times> string) list" where
  "match_m s =
     (case s of
        c1 # c2 # r \<Rightarrow>
          (if c1 = CHR ''1'' \<and> c2 \<in> set ''012'' then [(10 + digit_val c2, r)] else []) @
          (if c1 = CHR ''0'' \<and> c2 \<in> set ''123456789'' then [(digit_val c2, r)] else []) @
          (if c1 \<in> set ''123456789'' then [(digit_val c1, c2 # r)] else [])
      | [c1] \<Rightarrow> (if c1 \<in> set ''123456789'' then [(digit_val c1, [])] else [])
      | [] \<Rightarrow> [])"

text \<open>\<^verbatim>\<open>%d\<close> is the last group: its first alternative that matches is taken.\<close>

definition match_d :: "string \<Rightarrow> (nat \<times> string) option" where
  "match_d s =
     (case s of
        c1 # c2 # r \<Rightarrow>
          (if c1 = CHR ''3'' \<and> c2 \<in> set ''01'' then Some (30 + digit_val c2, r)
           else if c1 \<in> set ''12'' \<and> is_digit c2 then Some (10 * digit_val c1 + digit_val c2, r)
           else if c1 = CHR ''0'' \<and> c2 \<in> set ''123456789'' then Some (digit_val c2, r)
           else if c1 \<in> set ''123456789'' then Some (digit_val c1, c2 # r)
           else if c1 = CHR '' '' \<and> c2 \<in> set ''123456789'' then Some (digit_val c2, r)
           else None)
      | [c1] \<Rightarrow> (if c1 \<in> set ''123456789'' then Some (digit_val c1, []) else None)
      | [] \<Rightarrow> None)"

text \<open>Backtracking over the month alternatives: the first one after which \<^verbatim>\<open>-%d\<close> matches.\<close>

fun first_match :: "(nat \<times> string) list \<Rightarrow> (nat \<times> nat \<times> string) option" where
  "first_match [] = None"
| "first_match ((m, r) # alts) =
     (case r of
        c # r' \<Rightarrow>
          (if c = CHR ''-'' then
             (case match_d r' of
                Some (d, rest) \<Rightarrow> Some (m, d, rest)
              | None \<Rightarrow> first_match alts)
           else first_match alts)
      | [] \<Rightarrow> first_match alts)"

definition strptime_ymd :: "string \<Rightarrow> error + date" where
  "strptime_ymd s =
     (case s of
        y1 # y2 # y3 # y4 # c # r \<Rightarrow>
          (if is_digit y1 \<and> is_digit y2 \<and> is_digit y3 \<and> is_digit y4 \<and> c = CHR ''-'' then
             (case first_match (match_m r) of
                Some (m, d, rest) \<Rightarrow>
                  (if rest \<noteq> [] then Inl ValueError
                   else date_new (1000 * digit_val y1 + 100 * digit_val y2
                                  + 10 * digit_val y3 + digit_val y4) m d)
              | None \<Rightarrow> Inl ValueError)
           else Inl ValueError)
      | _ \<Rightarrow> Inl ValueError)"

subsection \<open>\<^verbatim>\<open>month_range\<close>\<close>

definition month_range :: "string \<Rightarrow> error + (date \<times> date)" where
  "month_range mon =
     (case strptime_ymd (mon @ ''-01'') of
        Inl e \<Rightarrow> Inl e
      | Inr start \<Rightarrow>
          (case (if month start = 12 then date_new (year start + 1) 1 1
                 else date_new (year start) (month start + 1) 1) of
             Inl e \<Rightarrow> Inl e
           | Inr next_month \<Rightarrow> Inr (start, next_month)))"

text \<open>
  The endpoints declare the query parameter with the pattern \<^verbatim>\<open>^\d{4}-\d{2}$\<close>;
  \<open>query_pattern\<close> is that pattern, \<open>tok_year\<close> and \<open>tok_month\<close> read the two numbers.
\<close>

definition query_pattern :: "string \<Rightarrow> bool" where
  "query_pattern tok =
     (case tok of
        [y1, y2, y3, y4, c, m1, m2] \<Rightarrow>
          is_digit y1 \<and> is_digit y2 \<and> is_digit y3 \<and> is_digit y4 \<and> c = CHR ''-''
          \<and> is_digit m1 \<and> is_digit m2
      | _ \<Rightarrow> False)"

definition tok_year :: "string \<Rightarrow> nat" where
  "tok_year tok = 1000 * digit_val (tok ! 0) + 100 * digit_val (tok ! 1)
                  + 10 * digit_val (tok ! 2) + digit_val (tok ! 3)"

definition tok_month :: "string \<Rightarrow> nat" where
  "tok_month tok = 10 * digit_val (tok ! 5) + digit_val (tok ! 6)"

subsection \<open>Documents\<close>

text \<open>
  Documents are modelled as \<^verbatim>\<open>serialize\<close> returns them: the store's \<^verbatim>\<open>_id\<close> is the
  field \<open>id\<close>, the lower-case hexadecimal string of the object identifier, and a date is
  a calendar date (\<^verbatim>\<open>serialize\<close> writes it in ISO format and \<^verbatim>\<open>in_month\<close> reads it
  back with \<^verbatim>\<open>fromisoformat\<close>; ISO strings of equal width order as the dates do).
  Every stored account carries \<^verbatim>\<open>initial_balance\<close> and \<^verbatim>\<open>color\<close>, so the defaults of
  \<^verbatim>\<open>acc.get\<close> are never taken.
\<close>

datatype account_type = cash | bank | ewallet

datatype kind = income | expense

record account =
  acc_id :: string
  acc_name :: string
  acc_type :: account_type
  initial_balance :: rat
  acc_color :: "string option"

record category =
  cat_id :: string
  cat_name :: string
  cat_type :: kind
  cat_color :: "string option"

record transaction =
  tx_id :: string
  tx_date :: date
  amount :: rat
  tx_type :: kind
  tx_category_id :: string
  tx_account_id :: string
  tx_note :: "string option"
  created_at :: nat

record budget =
  b_id :: string
  b_category_id :: string
  b_month :: string
  b_amount :: rat

text \<open>The four collections, each in the order \<^verbatim>\<open>get_documents\<close> returns it.\<close>

record store =
  accounts :: "account list"
  categories :: "category list"
  transactions :: "transaction list"
  budgets :: "budget list"

subsection \<open>Rounding\<close>

text \<open>\<^verbatim>\<open>round(x, 2)\<close>: the nearest multiple of 1/100, a tie going to the even one.\<close>

definition round2 :: "rat \<Rightarrow> rat" where
  "round2 x =
     (let y = x * 100; f = \<lfloor>y\<rfloor>; r = y - of_int f
      in if r < 1 / 2 then of_int f / 100
         else if 1 / 2 < r then of_int (f + 1) / 100
         else if even f then of_int f / 100 else of_int (f + 1) / 100)"

subsection \<open>Month filter and transaction list\<close>

text \<open>The nested function \<^verbatim>\<open>in_month\<close>, with the variables it closes over as arguments.\<close>

definition in_month :: "date \<Rightarrow> date \<Rightarrow> date \<Rightarrow> bool" where
  "in_month start next_month dd = (date_le start dd \<and> date_less dd next_month)"

text \<open>The sort key \<^verbatim>\<open>(x.get("date"), x.get("created_at"))\<close>.\<close>

definition tx_key :: "transaction \<Rightarrow> (nat \<times> nat \<times> nat) \<times> nat" where
  "tx_key x = (date_key (tx_date x), created_at x)"

text \<open>
  \<^verbatim>\<open>items.sort(key=..., reverse=True)\<close>: Python reverses the list, sorts it stably in
  ascending order and reverses the result, so that equal keys keep their order.
\<close>

definition sort_desc :: "transaction list \<Rightarrow> transaction list" where
  "sort_desc items = rev (sort_key tx_key (rev items))"

definition list_transactions :: "store \<Rightarrow> string option \<Rightarrow> error + transaction list" where
  "list_transactions st mon =
     (let items = transactions st in
      case (case mon of
              Some m \<Rightarrow>
                (if m \<noteq> [] then
                   (case month_range m of
                      Inl e \<Rightarrow> Inl e
                    | Inr (start, next_month) \<Rightarrow>
                        Inr (filter (\<lambda>t. in_month start next_month (tx_date t)) items))
                 else Inr items)
            | None \<Rightarrow> Inr items) of
        Inl e \<Rightarrow> Inl e
      | Inr items' \<Rightarrow> Inr (sort_desc items'))"

subsection \<open>Summary\<close>

record account_balance =
  ab_name :: string
  ab_color :: "string option"
  ab_balance :: rat

record budget_status =
  bs_budget_id :: string
  bs_category_id :: string
  bs_month :: string
  bs_amount :: rat
  bs_spent :: rat
  bs_remaining :: rat

record summary_result =
  total_income :: rat
  total_expense :: rat
  overall_balance :: rat
  s_accounts :: "(string \<times> account_balance) list"
  s_categories :: "category list"
  s_transactions :: "transaction list"
  s_budgets :: "budget_status list"

text \<open>The inner loop over \<^verbatim>\<open>all_txs\<close> for one account.\<close>

fun balance_loop :: "string \<Rightarrow> rat \<Rightarrow> transaction list \<Rightarrow> rat" where
  "balance_loop aid balance [] = balance"
| "balance_loop aid balance (t # ts) =
     balance_loop aid
       (if tx_account_id t = aid then
          (if tx_type t = income then balance + amount t else balance - amount t)
        else balance) ts"

text \<open>
  The outer loop fills the dictionary \<^verbatim>\<open>account_balances\<close>; assigning to a key that is
  already there replaces its value and keeps its place.
\<close>

fun accounts_loop ::
  "transaction list \<Rightarrow> (string \<times> account_balance) list \<Rightarrow> account list
   \<Rightarrow> (string \<times> account_balance) list" where
  "accounts_loop all_txs balances [] = balances"
| "accounts_loop all_txs balances (acc # accs) =
     accounts_loop all_txs
       (AList.update (acc_id acc)
          \<lparr>ab_name = acc_name acc, ab_color = acc_color acc,
           ab_balance = round2 (balance_loop (acc_id acc) (initial_balance acc) all_txs)\<rparr> balances)
       accs"

definition spent_of :: "transaction list \<Rightarrow> budget \<Rightarrow> rat" where
  "spent_of txs b =
     sum_list (map amount
       (filter (\<lambda>t. tx_category_id t = b_category_id b \<and> tx_type t = expense) txs))"

fun budget_loop ::
  "string \<Rightarrow> transaction list \<Rightarrow> budget_status list \<Rightarrow> budget list \<Rightarrow> budget_status list" where
  "budget_loop m txs status [] = status"
| "budget_loop m txs status (b # bs) =
     (if b_month b \<noteq> m then budget_loop m txs status bs
      else budget_loop m txs
             (status @
              [\<lparr>bs_budget_id = b_id b, bs_category_id = b_category_id b, bs_month = m,
                bs_amount = b_amount b, bs_spent = round2 (spent_of txs b),
                bs_remaining = round2 (b_amount b - spent_of txs b)\<rparr>]) bs)"

definition summary :: "store \<Rightarrow> string option \<Rightarrow> error + summary_result" where
  "summary st mon =
     (case (case mon of
              Some m \<Rightarrow>
                (if m \<noteq> [] then
                   (case month_range m of
                      Inl e \<Rightarrow> Inl e
                    | Inr (start, next_month) \<Rightarrow>
                        Inr (filter (\<lambda>t. in_month start next_month (tx_date t)) (transactions st)))
                 else Inr (transactions st))
            | None \<Rightarrow> Inr (transactions st)) of
        Inl e \<Rightarrow> Inl e
      | Inr txs \<Rightarrow>
          (let all_txs = transactions st;
               account_balances = accounts_loop all_txs [] (accounts st)
           in Inr
             \<lparr>total_income =
                round2 (sum_list (map amount (filter (\<lambda>t. tx_type t = income) txs))),
              total_expense =
                round2 (sum_list (map amount (filter (\<lambda>t. tx_type t = expense) txs))),
              overall_balance = round2 (sum_list (map (\<lambda>kv. ab_balance (snd kv)) account_balances)),
              s_accounts = account_balances,
              s_categories = categories st,
              s_transactions = take 50 txs,
              s_budgets =
                (case mon of
                   Some m \<Rightarrow> (if m \<noteq> [] then budget_loop m txs [] (budgets st) else [])
                 | None \<Rightarrow> [])\<rparr>))"

subsection \<open>Write handlers\<close>

text \<open>
  \<^verbatim>\<open>ObjectId(s)\<close> accepts a string of 24 hexadecimal digits and raises \<^verbatim>\<open>InvalidId\<close>
  on any other string. Two identifiers are equal when their bytes are, that is when the
  strings agree up to the case of the letters; the model keeps the lower-case string.
\<close>

definition is_hex :: "char \<Rightarrow> bool" where
  "is_hex c = (c \<in> set ''0123456789abcdefABCDEF'')"

definition hex_lower :: "char \<Rightarrow> char" where
  "hex_lower c =
     (if c = CHR ''A'' then CHR ''a'' else if c = CHR ''B'' then CHR ''b''
      else if c = CHR ''C'' then CHR ''c'' else if c = CHR ''D'' then CHR ''d''
      else if c = CHR ''E'' then CHR ''e'' else if c = CHR ''F'' then CHR ''f'' else c)"

definition ObjectId :: "string \<Rightarrow> error + string" where
  "ObjectId s = (if length s = 24 \<and> list_all is_hex s then Inr (map hex_lower s) else Inl InvalidId)"








subsection \<open>The balance formula of the spec\<close>


subsection \<open>Sample data\<close>

text \<open>
  The scenario of the spec's testable properties: an account with initial balance 100, an
  expense category, a March 2024 expense of 30, and a budget of 50 for that month. A
  second, later expense of 5 and a second budget of 20 are added to it.
\<close>

definition acc_A :: account where
  "acc_A = \<lparr>acc_id = ''65f000000000000000000001'', acc_name = ''A'', acc_type = cash,
            initial_balance = 100, acc_color = Some ''#6366F1''\<rparr>"

definition cat_C :: category where
  "cat_C = \<lparr>cat_id = ''65f000000000000000000002'', cat_name = ''C'', cat_type = expense,
            cat_color = Some ''#22C55E''\<rparr>"

definition cat_I :: category where
  "cat_I = \<lparr>cat_id = ''65f000000000000000000007'', cat_name = ''I'', cat_type = income,
            cat_color = Some ''#22C55E''\<rparr>"

definition tx_T1 :: transaction where
  "tx_T1 = \<lparr>tx_id = ''65f000000000000000000003'',
            tx_date = \<lparr>year = 2024, month = 3, day = 15\<rparr>, amount = 30, tx_type = expense,
            tx_category_id = ''65f000000000000000000002'',
            tx_account_id = ''65f000000000000000000001'', tx_note = None, created_at = 1\<rparr>"

definition tx_T2 :: transaction where
  "tx_T2 = \<lparr>tx_id = ''65f000000000000000000004'',
            tx_date = \<lparr>year = 2024, month = 3, day = 20\<rparr>, amount = 5, tx_type = expense,
            tx_category_id = ''65f000000000000000000002'',
            tx_account_id = ''65f000000000000000000001'', tx_note = None, created_at = 2\<rparr>"

definition tx_T3 :: transaction where
  "tx_T3 = \<lparr>tx_id = ''65f000000000000000000008'',
            tx_date = \<lparr>year = 2024, month = 3, day = 20\<rparr>, amount = 7, tx_type = income,
            tx_category_id = ''65f000000000000000000007'',
            tx_account_id = ''65f000000000000000000001'', tx_note = None, created_at = 3\<rparr>"

definition bud_B :: budget where
  "bud_B = \<lparr>b_id = ''65f000000000000000000005'',
            b_category_id = ''65f000000000000000000002'', b_month = ''2024-03'', b_amount = 50\<rparr>"

definition bud_B2 :: budget where
  "bud_B2 = \<lparr>b_id = ''65f000000000000000000006'',
             b_category_id = ''65f000000000000000000002'', b_month = ''2024-03'', b_amount = 20\<rparr>"

definition sample_store :: store where
  "sample_store = \<lparr>accounts = [acc_A], categories = [cat_C, cat_I],
                   transactions = [tx_T1, tx_T2], budgets = [bud_B, bud_B2]\<rparr>"

text \<open>Two transactions of the same day, the later-created one stored last.\<close>

definition same_day_store :: store where
  "same_day_store = \<lparr>accounts = [acc_A], categories = [cat_C, cat_I],
                     transactions = [tx_T2, tx_T3], budgets = []\<rparr>"











section \<open>Properties\<close>

subsection \<open>Month tokens\<close>

lemma is_digit_cases:
  "is_digit c \<Longrightarrow> c = CHR ''0'' \<or> c = CHR ''1'' \<or> c = CHR ''2'' \<or> c = CHR ''3'' \<or> c = CHR ''4''
     \<or> c = CHR ''5'' \<or> c = CHR ''6'' \<or> c = CHR ''7'' \<or> c = CHR ''8'' \<or> c = CHR ''9''"
  by (auto simp: is_digit_def)

lemma digit_val_less: "is_digit c \<Longrightarrow> digit_val c < 10"
  by (auto dest!: is_digit_cases simp: digit_val_def)

lemma first_match_token:
  assumes "is_digit m1" "is_digit m2"
  shows "first_match (match_m ([m1, m2] @ ''-01'')) =
     (if 1 \<le> 10 * digit_val m1 + digit_val m2 \<and> 10 * digit_val m1 + digit_val m2 \<le> 12
      then Some (10 * digit_val m1 + digit_val m2, 1, []) else None)"
  using is_digit_cases[OF assms(1)] is_digit_cases[OF assms(2)]
  by (elim disjE) (simp_all add: match_m_def match_d_def digit_val_def is_digit_def)

lemma days_in_month_pos: "1 \<le> m \<Longrightarrow> m \<le> 12 \<Longrightarrow> 1 \<le> days_in_month y m"
proof -
  assume "1 \<le> m" "m \<le> 12"
  then have "m = 1 \<or> m = 2 \<or> m = 3 \<or> m = 4 \<or> m = 5 \<or> m = 6 \<or> m = 7 \<or> m = 8
      \<or> m = 9 \<or> m = 10 \<or> m = 11 \<or> m = 12" by arith
  then show ?thesis
    by (elim disjE) (simp_all add: days_in_month_def DAYS_IN_MONTH_def)
qed

lemma query_patternE:
  assumes "query_pattern tok"
  obtains y1 y2 y3 y4 m1 m2 where "tok = [y1, y2, y3, y4, CHR ''-'', m1, m2]"
    "is_digit y1" "is_digit y2" "is_digit y3" "is_digit y4" "is_digit m1" "is_digit m2"
  using assms unfolding query_pattern_def
  by (auto split: list.splits)

lemma tok_year_le: "query_pattern tok \<Longrightarrow> tok_year tok \<le> 9999"
proof (erule query_patternE)
  fix y1 y2 y3 y4 m1 m2
  assume t: "tok = [y1, y2, y3, y4, CHR ''-'', m1, m2]"
    and d: "is_digit y1" "is_digit y2" "is_digit y3" "is_digit y4"
  from d have "digit_val y1 < 10" "digit_val y2 < 10" "digit_val y3 < 10" "digit_val y4 < 10"
    by (simp_all add: digit_val_less)
  then show ?thesis by (simp add: t tok_year_def)
qed

lemma strptime_token:
  assumes "query_pattern tok"
  shows "strptime_ymd (tok @ ''-01'') =
     (if 1 \<le> tok_year tok \<and> 1 \<le> tok_month tok \<and> tok_month tok \<le> 12
      then Inr \<lparr>year = tok_year tok, month = tok_month tok, day = 1\<rparr>
      else Inl ValueError)"
proof (rule query_patternE[OF assms])
  fix y1 y2 y3 y4 m1 m2
  assume t: "tok = [y1, y2, y3, y4, CHR ''-'', m1, m2]"
    and d: "is_digit y1" "is_digit y2" "is_digit y3" "is_digit y4" "is_digit m1" "is_digit m2"
  have fm: "first_match (match_m (m1 # m2 # ''-01'')) =
     (if 1 \<le> tok_month tok \<and> tok_month tok \<le> 12 then Some (tok_month tok, 1, []) else None)"
    using first_match_token[OF d(5) d(6)] by (simp add: t tok_month_def)
  have yl: "tok_year tok \<le> 9999" using assms by (rule tok_year_le)
  have ty: "1000 * digit_val y1 + 100 * digit_val y2 + 10 * digit_val y3 + digit_val y4 = tok_year tok"
    by (simp add: t tok_year_def)
  have "strptime_ymd (tok @ ''-01'') =
      (case first_match (match_m (m1 # m2 # ''-01'')) of
                Some (m, d, rest) \<Rightarrow>
                  (if rest \<noteq> [] then Inl ValueError
                   else date_new (1000 * digit_val y1 + 100 * digit_val y2
                                  + 10 * digit_val y3 + digit_val y4) m d)
              | None \<Rightarrow> Inl ValueError)"
    unfolding strptime_ymd_def t using d(1-4) by simp
  also have "\<dots> = (if 1 \<le> tok_year tok \<and> 1 \<le> tok_month tok \<and> tok_month tok \<le> 12
      then Inr \<lparr>year = tok_year tok, month = tok_month tok, day = 1\<rparr>
      else Inl ValueError)"
    unfolding ty fm
    using yl days_in_month_pos[of "tok_month tok" "tok_year tok"]
    by (simp add: date_new_def MINYEAR_def MAXYEAR_def)
  finally show ?thesis .
qed

lemma month_range_token:
  assumes "query_pattern tok"
  shows "month_range tok =
     (if 1 \<le> tok_year tok \<and> 1 \<le> tok_month tok \<and> tok_month tok \<le> 12
         \<and> \<not> (tok_year tok = 9999 \<and> tok_month tok = 12)
      then Inr (\<lparr>year = tok_year tok, month = tok_month tok, day = 1\<rparr>,
                if tok_month tok = 12 then \<lparr>year = tok_year tok + 1, month = 1, day = 1\<rparr>
                else \<lparr>year = tok_year tok, month = tok_month tok + 1, day = 1\<rparr>)
      else Inl ValueError)"
proof -
  have yl: "tok_year tok \<le> 9999" using assms by (rule tok_year_le)
  have d1: "1 \<le> days_in_month y 1" for y by (rule days_in_month_pos) simp_all
  have dn: "tok_month tok \<le> 11 \<Longrightarrow> 1 \<le> days_in_month (tok_year tok) (tok_month tok + 1)"
    by (rule days_in_month_pos) simp_all
  show ?thesis
    unfolding month_range_def strptime_token[OF assms]
    using yl d1 dn
    by (auto simp: date_new_def MINYEAR_def MAXYEAR_def)
qed

lemma div_Suc_step:
  "0 < k \<Longrightarrow> Suc n div k = n div k + (if Suc n mod k = 0 then 1 else 0)" for n k :: nat
  by (simp add: div_Suc mod_Suc)

lemma leap_arith:
  fixes z a b c a' b' c' :: nat
  assumes "a' = a + (if p then 1 else 0)" "b' = b + (if q then 1 else 0)"
    "c' = c + (if r then 1 else 0)" "b \<le> a" "q \<Longrightarrow> p" "r \<Longrightarrow> q"
  shows "Suc z * 365 + a' - b' + c' = z * 365 + a - b + c + 365 + (if p \<and> (\<not> q \<or> r) then 1 else 0)"
  using assms by (cases p; cases q; cases r) simp_all

lemma days_before_year_Suc:
  assumes "1 \<le> y"
  shows "days_before_year (y + 1) = days_before_year y + 365 + (if is_leap y then 1 else 0)"
proof -
  obtain z where y: "y = Suc z" using assms by (cases y) auto
  have le: "z div 100 \<le> z div 4" by (rule div_le_mono2) simp_all
  have m1: "Suc z mod 100 = 0 \<Longrightarrow> Suc z mod 4 = 0"
    using mod_mod_cancel[of 4 100 "Suc z"] by simp
  have m2: "Suc z mod 400 = 0 \<Longrightarrow> Suc z mod 100 = 0"
    using mod_mod_cancel[of 100 400 "Suc z"] by simp
  have "Suc z * 365 + Suc z div 4 - Suc z div 100 + Suc z div 400 =
      z * 365 + z div 4 - z div 100 + z div 400 + 365
       + (if Suc z mod 4 = 0 \<and> (\<not> Suc z mod 100 = 0 \<or> Suc z mod 400 = 0) then 1 else 0)"
    by (rule leap_arith[OF div_Suc_step div_Suc_step div_Suc_step le m1 m2]) simp_all
  then show ?thesis
    unfolding y days_before_year_def is_leap_def Let_def
    by (simp only: add_diff_cancel_right' diff_Suc_1 Suc_eq_plus1[symmetric])
qed

lemma days_before_month_Suc:
  assumes "1 \<le> m" "m \<le> 11"
  shows "days_before_month y (m + 1) = days_before_month y m + days_in_month y m"
proof -
  from assms have "m = 1 \<or> m = 2 \<or> m = 3 \<or> m = 4 \<or> m = 5 \<or> m = 6 \<or> m = 7 \<or> m = 8
      \<or> m = 9 \<or> m = 10 \<or> m = 11" by arith
  then show ?thesis
    by (elim disjE)
       (simp_all add: days_before_month_def days_in_month_def DAYS_IN_MONTH_def)
qed

lemma days_before_month_12: "days_before_month y 12 + 31 = 365 + (if is_leap y then 1 else 0)"
  by (simp add: days_before_month_def DAYS_IN_MONTH_def)

lemma days_before_month_1: "days_before_month y 1 = 0"
  by (simp add: days_before_month_def DAYS_IN_MONTH_def)

lemma ord_next_month:
  assumes "1 \<le> m" "m \<le> 11"
  shows "date_sub \<lparr>year = y, month = m + 1, day = 1\<rparr> \<lparr>year = y, month = m, day = 1\<rparr>
         = int (days_in_month y m)"
  using days_before_month_Suc[OF assms, of y]
  by (simp add: date_sub_def toordinal_def ymd2ord_def)

lemma ord_december:
  assumes "1 \<le> y"
  shows "date_sub \<lparr>year = y + 1, month = 1, day = 1\<rparr> \<lparr>year = y, month = 12, day = 1\<rparr> = 31"
proof -
  have "days_before_year (y + 1) + days_before_month (y + 1) 1
        = days_before_year y + (days_before_month y 12 + 31)"
    unfolding days_before_year_Suc[OF assms] days_before_month_1 days_before_month_12
    by simp
  then show ?thesis
    by (simp add: date_sub_def toordinal_def ymd2ord_def)
qed

lemma days_in_month_calendar:
  assumes "1 \<le> m" "m \<le> 12"
  shows "days_in_month y m =
     (if m = 4 \<or> m = 6 \<or> m = 9 \<or> m = 11 then 30
      else if m = 2 then (if y mod 4 = 0 \<and> (y mod 100 \<noteq> 0 \<or> y mod 400 = 0) then 29 else 28)
      else 31)"
proof -
  from assms have "m = 1 \<or> m = 2 \<or> m = 3 \<or> m = 4 \<or> m = 5 \<or> m = 6 \<or> m = 7 \<or> m = 8
      \<or> m = 9 \<or> m = 10 \<or> m = 11 \<or> m = 12" by arith
  then show ?thesis
    by (elim disjE) (simp_all add: days_in_month_def DAYS_IN_MONTH_def is_leap_def)
qed


text \<open>
  C4 (as amended). For every month token \<open>YYYY-MM\<close> whose year is between 0001 and 9999
  and whose month is between 01 and 12, the token 9999-12 excepted, \<open>month_range\<close> returns
  the first day of that month and the first day of the following month; the difference of
  the two dates is the number of days of that month in that year (30 for April, June,
  September and November, 28 or 29 for February by the leap-year rule, 31 otherwise), and a
  December token gives the first of January of \<open>year + 1\<close>.
\<close>

theorem month_range_valid:
  assumes "query_pattern tok" and "1 \<le> tok_year tok"
    and "1 \<le> tok_month tok" and "tok_month tok \<le> 12"
    and "\<not> (tok_year tok = 9999 \<and> tok_month tok = 12)"
  shows "\<exists>start next_month.
      month_range tok = Inr (start, next_month)
    \<and> start = \<lparr>year = tok_year tok, month = tok_month tok, day = 1\<rparr>
    \<and> next_month = (if tok_month tok = 12 then \<lparr>year = tok_year tok + 1, month = 1, day = 1\<rparr>
                    else \<lparr>year = tok_year tok, month = tok_month tok + 1, day = 1\<rparr>)
    \<and> date_sub next_month start =
        (if tok_month tok = 4 \<or> tok_month tok = 6 \<or> tok_month tok = 9 \<or> tok_month tok = 11 then 30
         else if tok_month tok = 2 then
           (if tok_year tok mod 4 = 0 \<and> (tok_year tok mod 100 \<noteq> 0 \<or> tok_year tok mod 400 = 0)
            then 29 else 28)
         else 31)"
proof (cases "tok_month tok = 12")
  case True
  then show ?thesis
    using assms ord_december[OF assms(2)]
    by (simp add: month_range_token)
next
  case False
  with assms have m: "1 \<le> tok_month tok" "tok_month tok \<le> 11" by simp_all
  show ?thesis
    using assms False ord_next_month[OF m, of "tok_year tok"]
      days_in_month_calendar[OF assms(3) assms(4), of "tok_year tok"]
    by (simp add: month_range_token)
qed

theorem month_range_valid_witness:
  "month_range ''2024-02'' =
     Inr (\<lparr>year = 2024, month = 2, day = 1\<rparr>, \<lparr>year = 2024, month = 3, day = 1\<rparr>)
   \<and> date_sub \<lparr>year = 2024, month = 3, day = 1\<rparr> \<lparr>year = 2024, month = 2, day = 1\<rparr> = 29"
proof -
  have p: "query_pattern ''2024-02''" by code_simp
  have y: "tok_year ''2024-02'' = 2024" by code_simp
  have m: "tok_month ''2024-02'' = 2" by code_simp
  have h: "1 \<le> tok_year ''2024-02''" "1 \<le> tok_month ''2024-02''" "tok_month ''2024-02'' \<le> 12"
    "\<not> (tok_year ''2024-02'' = 9999 \<and> tok_month ''2024-02'' = 12)"
    by (simp_all add: y m)
  from month_range_valid[OF p h] show ?thesis
    unfolding y m by simp
qed


text \<open>
  The claim as stated, for every token with a valid month, fails for December 9999: the
  following month would be in year 10000, which \<^verbatim>\<open>date\<close> rejects.
\<close>

theorem month_range_december_9999:
  "query_pattern ''9999-12'' \<and> tok_month ''9999-12'' = 12 \<and> month_range ''9999-12'' = Inl ValueError"
  by code_simp


subsection \<open>What the read handlers compute\<close>

lemma date_new_Inr:
  "date_new y m d = Inr x \<Longrightarrow> x = \<lparr>year = y, month = m, day = d\<rparr>"
  by (simp add: date_new_def split: if_splits)

lemma month_range_less:
  assumes "month_range tok = Inr (start, next_month)"
  shows "date_less start next_month"
proof -
  from assms obtain s where s: "strptime_ymd (tok @ ''-01'') = Inr s"
    by (auto simp: month_range_def split: sum.splits)
  from assms s have st: "start = s"
    and n: "(if month s = 12 then date_new (year s + 1) 1 1
             else date_new (year s) (month s + 1) 1) = Inr next_month"
    by (auto simp: month_range_def split: sum.splits)
  show ?thesis
  proof (cases "month s = 12")
    case True
    with n have "next_month = \<lparr>year = year s + 1, month = 1, day = 1\<rparr>"
      by (simp add: date_new_Inr)
    then show ?thesis by (simp add: st date_less_def date_key_def)
  next
    case False
    with n have "next_month = \<lparr>year = year s, month = month s + 1, day = 1\<rparr>"
      by (simp add: date_new_Inr)
    then show ?thesis by (simp add: st date_less_def date_key_def)
  qed
qed

lemma month_range_nonempty: "month_range tok = Inr r \<Longrightarrow> tok \<noteq> []"
  by (auto simp: month_range_def strptime_ymd_def)

lemma list_transactions_Some:
  assumes "month_range tok = Inr (start, next_month)"
  shows "list_transactions st (Some tok) =
     Inr (sort_desc (filter (\<lambda>t. in_month start next_month (tx_date t)) (transactions st)))"
  using assms month_range_nonempty[OF assms]
  by (simp add: list_transactions_def)

lemma list_transactions_None:
  "list_transactions st None = Inr (sort_desc (transactions st))"
  by (simp add: list_transactions_def)



lemma summary_Some:
  assumes "month_range tok = Inr (start, next_month)"
  shows "\<exists>r. summary st (Some tok) = Inr r
     \<and> s_transactions r =
         take 50 (filter (\<lambda>t. in_month start next_month (tx_date t)) (transactions st))
     \<and> total_income r = round2 (sum_list (map amount (filter (\<lambda>t. tx_type t = income)
         (filter (\<lambda>t. in_month start next_month (tx_date t)) (transactions st)))))
     \<and> total_expense r = round2 (sum_list (map amount (filter (\<lambda>t. tx_type t = expense)
         (filter (\<lambda>t. in_month start next_month (tx_date t)) (transactions st)))))
     \<and> s_budgets r =
         budget_loop tok (filter (\<lambda>t. in_month start next_month (tx_date t)) (transactions st))
           [] (budgets st)
     \<and> s_accounts r = accounts_loop (transactions st) [] (accounts st)
     \<and> overall_balance r = round2 (sum_list (map (\<lambda>kv. ab_balance (snd kv)) (s_accounts r)))"
  using assms month_range_nonempty[OF assms]
  by (simp add: summary_def Let_def)



lemma in_month_calendar:
  assumes "1 \<le> month d" "month d \<le> 12" "1 \<le> day d" "1 \<le> m" "m \<le> 12"
  shows "in_month \<lparr>year = y, month = m, day = 1\<rparr>
           (if m = 12 then \<lparr>year = y + 1, month = 1, day = 1\<rparr>
            else \<lparr>year = y, month = m + 1, day = 1\<rparr>) d
         \<longleftrightarrow> (year d = y \<and> month d = m)"
  using assms
  by (auto simp: in_month_def date_le_def date_less_def date_key_def)


text \<open>
  C5. For every month token that \<open>month_range\<close> accepts, membership in the month is the
  half-open test: the month's start is a member, the next month's start is not, and a date
  is a member exactly when \<open>start \<le> date < next_month\<close> (for a token of the query
  pattern and a calendar date: exactly when the date has the token's year and month). The
  transaction list is the sorted list of the stored transactions that pass this test, and
  the summary takes its transactions from the same filtered list.
\<close>

theorem in_month_half_open:
  assumes "month_range tok = Inr (start, next_month)"
  shows "in_month start next_month start
     \<and> \<not> in_month start next_month next_month
     \<and> (\<forall>d. in_month start next_month d
              \<longleftrightarrow> (date_key start \<le> date_key d \<and> date_key d < date_key next_month))
     \<and> (query_pattern tok \<longrightarrow>
          (\<forall>d. 1 \<le> month d \<and> month d \<le> 12 \<and> 1 \<le> day d \<longrightarrow>
             (in_month start next_month d
                \<longleftrightarrow> (year d = tok_year tok \<and> month d = tok_month tok))))
     \<and> list_transactions st (Some tok) =
         Inr (sort_desc (filter (\<lambda>t. date_key start \<le> date_key (tx_date t)
                                     \<and> date_key (tx_date t) < date_key next_month)
                                (transactions st)))
     \<and> (\<exists>r. summary st (Some tok) = Inr r
           \<and> s_transactions r =
               take 50 (filter (\<lambda>t. date_key start \<le> date_key (tx_date t)
                                     \<and> date_key (tx_date t) < date_key next_month)
                               (transactions st)))"
proof -
  have less: "date_less start next_month" using assms by (rule month_range_less)
  have a: "in_month start next_month start"
    using less by (simp add: in_month_def date_le_def)
  have b: "\<not> in_month start next_month next_month"
    by (simp add: in_month_def date_less_def)
  have c: "\<forall>d. in_month start next_month d
              \<longleftrightarrow> (date_key start \<le> date_key d \<and> date_key d < date_key next_month)"
    by (simp add: in_month_def date_le_def date_less_def)
  have d: "query_pattern tok \<longrightarrow>
          (\<forall>d. 1 \<le> month d \<and> month d \<le> 12 \<and> 1 \<le> day d \<longrightarrow>
             (in_month start next_month d
                \<longleftrightarrow> (year d = tok_year tok \<and> month d = tok_month tok)))"
  proof (intro impI allI)
    fix d :: date
    assume p: "query_pattern tok" and v: "1 \<le> month d \<and> month d \<le> 12 \<and> 1 \<le> day d"
    from assms month_range_token[OF p]
    have ok: "1 \<le> tok_month tok" "tok_month tok \<le> 12"
      and s: "start = \<lparr>year = tok_year tok, month = tok_month tok, day = 1\<rparr>"
      and n: "next_month =
          (if tok_month tok = 12 then \<lparr>year = tok_year tok + 1, month = 1, day = 1\<rparr>
           else \<lparr>year = tok_year tok, month = tok_month tok + 1, day = 1\<rparr>)"
      by (simp_all split: if_splits)
    show "in_month start next_month d \<longleftrightarrow> (year d = tok_year tok \<and> month d = tok_month tok)"
      unfolding s n using v ok by (intro in_month_calendar) simp_all
  qed
  have f: "(\<lambda>t. in_month start next_month (tx_date t)) =
           (\<lambda>t. date_key start \<le> date_key (tx_date t)
                 \<and> date_key (tx_date t) < date_key next_month)"
    by (simp add: in_month_def date_le_def date_less_def)
  have e: "list_transactions st (Some tok) =
         Inr (sort_desc (filter (\<lambda>t. date_key start \<le> date_key (tx_date t)
                                     \<and> date_key (tx_date t) < date_key next_month)
                                (transactions st)))"
    using list_transactions_Some[OF assms, of st] by (simp only: f)
  have g: "\<exists>r. summary st (Some tok) = Inr r
           \<and> s_transactions r =
               take 50 (filter (\<lambda>t. date_key start \<le> date_key (tx_date t)
                                     \<and> date_key (tx_date t) < date_key next_month)
                               (transactions st))"
    using summary_Some[OF assms, of st] unfolding f by blast
  from a b c d e g show ?thesis by blast
qed


theorem in_month_half_open_witness:
  "in_month \<lparr>year = 2024, month = 3, day = 1\<rparr> \<lparr>year = 2024, month = 4, day = 1\<rparr>
     \<lparr>year = 2024, month = 3, day = 1\<rparr>
   \<and> \<not> in_month \<lparr>year = 2024, month = 3, day = 1\<rparr> \<lparr>year = 2024, month = 4, day = 1\<rparr>
     \<lparr>year = 2024, month = 4, day = 1\<rparr>
   \<and> in_month \<lparr>year = 2024, month = 3, day = 1\<rparr> \<lparr>year = 2024, month = 4, day = 1\<rparr>
     \<lparr>year = 2024, month = 3, day = 31\<rparr>
   \<and> list_transactions sample_store (Some ''2024-03'') = Inr [tx_T2, tx_T1]"
proof -
  have mr: "month_range ''2024-03'' =
      Inr (\<lparr>year = 2024, month = 3, day = 1\<rparr>, \<lparr>year = 2024, month = 4, day = 1\<rparr>)"
    by code_simp
  have qp: "query_pattern ''2024-03''" by code_simp
  have ty: "tok_year ''2024-03'' = 2024" by code_simp
  have tm: "tok_month ''2024-03'' = 3" by code_simp
  have ev: "sort_desc (filter (\<lambda>t. date_key \<lparr>year = 2024, month = 3, day = 1\<rparr> \<le> date_key (tx_date t)
                \<and> date_key (tx_date t) < date_key \<lparr>year = 2024, month = 4, day = 1\<rparr>)
              (transactions sample_store)) = [tx_T2, tx_T1]"
    by code_simp
  note th = in_month_half_open[OF mr, of sample_store]
  from th have a: "in_month \<lparr>year = 2024, month = 3, day = 1\<rparr> \<lparr>year = 2024, month = 4, day = 1\<rparr>
     \<lparr>year = 2024, month = 3, day = 1\<rparr>" by blast
  from th have b: "\<not> in_month \<lparr>year = 2024, month = 3, day = 1\<rparr> \<lparr>year = 2024, month = 4, day = 1\<rparr>
     \<lparr>year = 2024, month = 4, day = 1\<rparr>" by blast
  from th qp have "\<forall>d. 1 \<le> month d \<and> month d \<le> 12 \<and> 1 \<le> day d \<longrightarrow>
             (in_month \<lparr>year = 2024, month = 3, day = 1\<rparr> \<lparr>year = 2024, month = 4, day = 1\<rparr> d
                \<longleftrightarrow> (year d = tok_year ''2024-03'' \<and> month d = tok_month ''2024-03''))"
    by blast
  then have c: "in_month \<lparr>year = 2024, month = 3, day = 1\<rparr> \<lparr>year = 2024, month = 4, day = 1\<rparr>
     \<lparr>year = 2024, month = 3, day = 31\<rparr>"
    by (simp add: ty tm)
  from th have "list_transactions sample_store (Some ''2024-03'') =
      Inr (sort_desc (filter (\<lambda>t. date_key \<lparr>year = 2024, month = 3, day = 1\<rparr> \<le> date_key (tx_date t)
                \<and> date_key (tx_date t) < date_key \<lparr>year = 2024, month = 4, day = 1\<rparr>)
              (transactions sample_store)))" by blast
  then have d: "list_transactions sample_store (Some ''2024-03'') = Inr [tx_T2, tx_T1]"
    by (simp only: ev)
  from a b c d show ?thesis by blast
qed


subsection \<open>Order of the transaction list\<close>

lemma tx_key_le:
  "tx_key a \<le> tx_key b \<longleftrightarrow>
     date_key (tx_date a) < date_key (tx_date b)
     \<or> (date_key (tx_date a) = date_key (tx_date b) \<and> created_at a \<le> created_at b)"
  by (auto simp: tx_key_def)

lemma sort_desc_nth:
  assumes "i < j" "j < length (sort_desc xs)"
  shows "tx_key (sort_desc xs ! j) \<le> tx_key (sort_desc xs ! i)"
proof -
  let ?ks = "map tx_key (sort_desc xs)"
  have "rev ?ks = map tx_key (sort_key tx_key (rev xs))"
    by (simp add: sort_desc_def rev_map)
  then have "sorted (rev ?ks)" by (simp only: sorted_sort_key)
  then have "?ks ! j \<le> ?ks ! i"
    using assms by (simp add: sorted_rev_iff_nth_mono)
  then show ?thesis using assms by simp
qed

lemma list_transactions_Inr:
  assumes "list_transactions st mon = Inr r"
  shows "\<exists>xs. r = sort_desc xs \<and> set xs \<subseteq> set (transactions st)"
  using assms
  by (auto simp: list_transactions_def Let_def split: option.splits if_splits sum.splits)


text \<open>
  C9. Whatever the month filter, the list that \<open>list_transactions\<close> returns is in
  descending order of the pair (date, creation timestamp): of two returned transactions,
  the one that comes first has the later or the same date, and when the dates are equal it
  has the later or the same creation timestamp.
\<close>

theorem list_transactions_sorted:
  assumes "list_transactions st mon = Inr r" and "i < j" and "j < length r"
  shows "date_le (tx_date (r ! j)) (tx_date (r ! i))
     \<and> (tx_date (r ! i) = tx_date (r ! j) \<longrightarrow> created_at (r ! j) \<le> created_at (r ! i))"
proof -
  from list_transactions_Inr[OF assms(1)] obtain xs where r: "r = sort_desc xs" by blast
  have "tx_key (r ! j) \<le> tx_key (r ! i)"
    using sort_desc_nth[of i j xs] assms(2,3) by (simp add: r)
  then show ?thesis
    by (auto simp: tx_key_le date_le_def)
qed

theorem list_transactions_sorted_witness:
  "list_transactions same_day_store None = Inr [tx_T3, tx_T2]
   \<and> date_le (tx_date tx_T2) (tx_date tx_T3)
   \<and> tx_date tx_T3 = tx_date tx_T2
   \<and> created_at tx_T2 \<le> created_at tx_T3"
proof -
  have l: "list_transactions same_day_store None = Inr [tx_T3, tx_T2]" by code_simp
  have e: "tx_date tx_T3 = tx_date tx_T2" by code_simp
  have "(0::nat) < 1" "(1::nat) < length [tx_T3, tx_T2]" by simp_all
  from list_transactions_sorted[OF l this] show ?thesis
    using l e by simp
qed

subsection \<open>Tokens that \<open>month_range\<close> rejects\<close>






subsection \<open>The transactions of the summary\<close>

text \<open>
  C1. The summary returns the first 50 transactions in the order of the store, without
  sorting them: on the sample store, where the older transaction is stored first, the
  summary lists the older one first, while the transaction list puts the more recent first.
\<close>

theorem summary_transactions_store_order:
  "(case summary sample_store None of Inl e \<Rightarrow> [] | Inr r \<Rightarrow> s_transactions r) = [tx_T1, tx_T2]
   \<and> list_transactions sample_store None = Inr [tx_T2, tx_T1]
   \<and> created_at tx_T1 < created_at tx_T2
   \<and> date_less (tx_date tx_T1) (tx_date tx_T2)"
  by code_simp

subsection \<open>Account balances\<close>










subsection \<open>Overall balance\<close>






subsection \<open>Budget status\<close>






subsection \<open>Creating a transaction\<close>



lemma ObjectId_cases: "ObjectId s = Inl InvalidId \<or> (\<exists>oid. ObjectId s = Inr oid)"
  by (simp add: ObjectId_def)









subsection \<open>Creating a budget\<close>








end
